theory Spec2Isabelle
  imports Main "HOL-Library.Sublist" "HOL-Library.Word"
begin

section \<open>Python values used by the report core\<close>

text \<open>
  The program is one Python module, \<^verbatim>\<open>src/app.py\<close>. Its report core works on
  strings, on dictionaries loaded from a JSON record store and on lists of them.

  Strings are modelled as \<^typ>\<open>string\<close> and read as ASCII text: the case mappings
  below change the 26 Latin letters only and the white space of \<^verbatim>\<open>str.strip\<close> is
  the ASCII part of Python's white space (code points 9 to 13, 28 to 31 and 32).
  Characters outside ASCII are kept as they are.
\<close>

definition is_space :: "char \<Rightarrow> bool" where
  "is_space c = ((of_char c :: nat) \<in> {9, 10, 11, 12, 13, 28, 29, 30, 31, 32})"

text \<open>\<^verbatim>\<open>s.strip()\<close>: white space is removed at both ends.\<close>

definition strip :: "string \<Rightarrow> string" where
  "strip s = rev (dropWhile is_space (rev (dropWhile is_space s)))"

definition upper_char :: "char \<Rightarrow> char" where
  "upper_char c =
     (let n = (of_char c :: nat) in if 97 \<le> n \<and> n \<le> 122 then char_of (n - 32) else c)"

definition lower_char :: "char \<Rightarrow> char" where
  "lower_char c =
     (let n = (of_char c :: nat) in if 65 \<le> n \<and> n \<le> 90 then char_of (n + 32) else c)"

text \<open>\<^verbatim>\<open>s.upper()\<close> and \<^verbatim>\<open>s.lower()\<close>.\<close>

definition upper :: "string \<Rightarrow> string" where
  "upper s = map upper_char s"

definition lower :: "string \<Rightarrow> string" where
  "lower s = map lower_char s"


text \<open>\<^verbatim>\<open>sub in s\<close> on two strings: \<open>sub\<close> occurs in \<open>s\<close> as a contiguous block.\<close>

fun contains :: "string \<Rightarrow> string \<Rightarrow> bool" where
  "contains sub [] = (sub = [])"
| "contains sub (c # cs) = (prefix sub (c # cs) \<or> contains sub cs)"

text \<open>
  A value read from the record store: JSON null, a number or a text. (Floating point
  cells are left out of the model.)
\<close>

datatype pyval = PNone | PInt int | PStr string

fun str_nat :: "nat \<Rightarrow> string" where
  "str_nat n =
     (if n < 10 then [char_of (48 + n)] else str_nat (n div 10) @ [char_of (48 + n mod 10)])"

definition str_int :: "int \<Rightarrow> string" where
  "str_int i = (if i < 0 then CHR ''-'' # str_nat (nat (- i)) else str_nat (nat i))"

text \<open>\<^verbatim>\<open>str(v)\<close>.\<close>

fun py_str :: "pyval \<Rightarrow> string" where
  "py_str PNone = ''None''"
| "py_str (PInt i) = str_int i"
| "py_str (PStr s) = s"

text \<open>
  A key of a dictionary that came from JSON is absent, present with null, or present
  with a value; \<^verbatim>\<open>d.get(k, default)\<close> answers the default for an absent key only.
\<close>

datatype 'a field = Absent | Null | Present 'a



datatype error = TypeError | ImageError

subsection \<open>Dictionaries\<close>

text \<open>
  A Python \<^verbatim>\<open>dict\<close> keeps its keys in insertion order; assigning to a key that is
  present replaces the value where it stands, assigning to a new key appends it.
\<close>

type_synonym ('k, 'v) dict = "('k \<times> 'v) list"

primrec dict_set :: "'k \<Rightarrow> 'v \<Rightarrow> ('k, 'v) dict \<Rightarrow> ('k, 'v) dict" where
  "dict_set k v [] = [(k, v)]"
| "dict_set k v (p # ps) = (if fst p = k then (k, v) # ps else p # dict_set k v ps)"

definition dict_keys :: "('k, 'v) dict \<Rightarrow> 'k list" where
  "dict_keys d = map fst d"

definition dict_get :: "('k, 'v) dict \<Rightarrow> 'k \<Rightarrow> 'v option" where
  "dict_get d k = map_of d k"

text \<open>\<^verbatim>\<open>k in d\<close>.\<close>

definition dict_has :: "'k \<Rightarrow> ('k, 'v) dict \<Rightarrow> bool" where
  "dict_has k d = (k \<in> set (dict_keys d))"


section \<open>Spring configuration resolver\<close>

text \<open>
  One row of the master table \<^verbatim>\<open>spring_types\<close>. The source reads three keys of it:
  \<^verbatim>\<open>st_item.get("coach_types") or []\<close>, \<^verbatim>\<open>str(st_item.get("spring_type", ""))\<close> and
  \<^verbatim>\<open>int(st_item.get("max_per_bogie", 4))\<close>.
\<close>

record spring_type_item =
  coach_types :: "string list field"
  spring_type :: "string field"
  max_per_bogie :: "int field"

text \<open>\<^verbatim>\<open>st_item.get("coach_types") or []\<close>\<close>

definition item_coach_types :: "spring_type_item \<Rightarrow> string list" where
  "item_coach_types it = (case coach_types it of Present l \<Rightarrow> l | _ \<Rightarrow> [])"

text \<open>\<^verbatim>\<open>str(st_item.get("spring_type", ""))\<close>; a null name prints as \<^verbatim>\<open>None\<close>.\<close>

definition item_spring_name :: "spring_type_item \<Rightarrow> string" where
  "item_spring_name it =
     (case spring_type it of Absent \<Rightarrow> '''' | Null \<Rightarrow> py_str PNone | Present s \<Rightarrow> s)"

text \<open>\<^verbatim>\<open>int(st_item.get("max_per_bogie", 4))\<close>; \<^verbatim>\<open>int(None)\<close> raises \<^verbatim>\<open>TypeError\<close>.\<close>

definition item_max_per_bogie :: "spring_type_item \<Rightarrow> error + int" where
  "item_max_per_bogie it =
     (case max_per_bogie it of Absent \<Rightarrow> Inr 4 | Null \<Rightarrow> Inl TypeError | Present n \<Rightarrow> Inr n)"

text \<open>
  \<^verbatim>\<open>str(secondary_type).strip().upper() if secondary_type else ""\<close>: \<open>None\<close> and the
  empty string are falsy.
\<close>

definition normalize_secondary :: "string option \<Rightarrow> string" where
  "normalize_secondary secondary_type =
     (case secondary_type of
        None \<Rightarrow> ''''
      | Some s \<Rightarrow> if s = '''' then '''' else upper (strip s))"

text \<open>The \<^verbatim>\<open>for st_item in spring_types\<close> loop, with \<open>counts\<close> as its state.\<close>

fun spring_loop ::
  "string \<Rightarrow> string \<Rightarrow> spring_type_item list \<Rightarrow> (string, int) dict \<Rightarrow> error + (string, int) dict"
where
  "spring_loop coach_type norm [] counts = Inr counts"
| "spring_loop coach_type norm (st_item # rest) counts =
     (if coach_type \<in> set (item_coach_types st_item) then
        (let spring_name = item_spring_name st_item in
         if contains ''AIR'' norm \<and> contains ''secondary'' (lower spring_name)
         then spring_loop coach_type norm rest counts
         else (case item_max_per_bogie st_item of
                 Inl e \<Rightarrow> Inl e
               | Inr n \<Rightarrow> spring_loop coach_type norm rest (dict_set spring_name n counts)))
      else spring_loop coach_type norm rest counts)"

text \<open>The \<^verbatim>\<open>for sec_name in ["Secondary Outer", "Secondary Inner"]\<close> loop.\<close>

fun coil_loop :: "string list \<Rightarrow> (string, int) dict \<Rightarrow> (string, int) dict" where
  "coil_loop [] counts = counts"
| "coil_loop (sec_name # rest) counts =
     (if \<not> dict_has sec_name counts then coil_loop rest (dict_set sec_name 2 counts)
      else coil_loop rest counts)"

definition get_spring_counts ::
  "string \<Rightarrow> string option \<Rightarrow> spring_type_item list \<Rightarrow> error + (string, int) dict"
where
  "get_spring_counts coach_type secondary_type spring_types =
     (let secondary_type_normalized = normalize_secondary secondary_type in
      case spring_loop coach_type secondary_type_normalized spring_types [] of
        Inl e \<Rightarrow> Inl e
      | Inr counts \<Rightarrow>
          if contains ''COIL'' secondary_type_normalized
          then Inr (coil_loop [''Secondary Outer'', ''Secondary Inner''] counts)
          else Inr counts)"

text \<open>
  The master rows that reach the assignment \<^verbatim>\<open>counts[spring_name] = ...\<close>: the coach
  type is listed and the air-spring rule does not skip the name.
\<close>

definition applicable :: "string \<Rightarrow> string \<Rightarrow> spring_type_item \<Rightarrow> bool" where
  "applicable coach_type norm st_item =
     (coach_type \<in> set (item_coach_types st_item) \<and>
      \<not> (contains ''AIR'' norm \<and> contains ''secondary'' (lower (item_spring_name st_item))))"

section \<open>Inspection checklist builder\<close>


type_synonym row = "(string, pyval) dict"






text \<open>The three columns of a row that are not spring positions.\<close>

definition row_fields :: "string list" where
  "row_fields = [''activity'', ''remarks'', ''activity_id'']"

section \<open>Signature date normalizer\<close>


subsection \<open>Calendar dates of the standard library\<close>











section \<open>Defect aggregator\<close>







section \<open>Checklist merge at finalize time\<close>

text \<open>
  \<^verbatim>\<open>clean_inspections(editor_df, default_val)\<close>: the edited table is a list of rows or
  absent; \<^verbatim>\<open>fillna("")\<close> turns every missing cell into the empty string.
\<close>

definition fillna :: "row \<Rightarrow> row" where
  "fillna r = map (\<lambda>(k, v). (k, if v = PNone then PStr '''' else v)) r"

text \<open>The loop \<^verbatim>\<open>for k, v in list(r.items())\<close> over a copy of the items of \<open>r\<close>.\<close>

fun clean_items :: "(string \<times> pyval) list \<Rightarrow> string \<Rightarrow> row \<Rightarrow> row" where
  "clean_items [] default_val r = r"
| "clean_items ((k, v) # rest) default_val r =
     (if v = PStr '''' \<and> k \<notin> set [''activity'', ''remarks'', ''activity_id'']
      then clean_items rest default_val (dict_set k (PStr default_val) r)
      else clean_items rest default_val r)"

definition clean_row :: "row \<Rightarrow> string \<Rightarrow> row" where
  "clean_row r default_val = clean_items r default_val r"

definition clean_inspections :: "row list option \<Rightarrow> string \<Rightarrow> row list" where
  "clean_inspections editor_df default_val =
     (case editor_df of
        None \<Rightarrow> []
      | Some df \<Rightarrow> map (\<lambda>r. clean_row (fillna r) default_val) df)"

text \<open>The four calls of the handler.\<close>

definition bogie1_inspections :: "row list option \<Rightarrow> row list" where
  "bogie1_inspections edited_vis_b1 = clean_inspections edited_vis_b1 ''Satisfactory''"

definition bogie2_inspections :: "row list option \<Rightarrow> row list" where
  "bogie2_inspections edited_vis_b2 = clean_inspections edited_vis_b2 ''Satisfactory''"

definition bogie1_must :: "row list option \<Rightarrow> row list" where
  "bogie1_must edited_must_b1 = clean_inspections edited_must_b1 ''Done''"

definition bogie2_must :: "row list option \<Rightarrow> row list" where
  "bogie2_must edited_must_b2 = clean_inspections edited_must_b2 ''Done''"

text \<open>
  The merge rule in the words of the specification, for one cell \<open>v\<close> of column \<open>k\<close>: a
  blank spring-position cell takes the default, every other cell is kept (a missing
  cell of the three row fields reads as the empty string).
\<close>

definition spec_merge_cell :: "string \<Rightarrow> string \<Rightarrow> pyval \<Rightarrow> pyval" where
  "spec_merge_cell default_val k v =
     (if k \<in> set row_fields then (if v = PNone then PStr '''' else v)
      else if v = PNone \<or> v = PStr '''' then PStr default_val
      else v)"

section \<open>Report document assembler\<close>



























section \<open>A sample report\<close>



section \<open>Facts about the Python primitives\<close>

lemma contains_sublist: "contains sub s = sublist sub s"
  by (induction s) (simp_all add: sublist_Cons_right)

lemma dict_get_set: "dict_get (dict_set k v d) k' = (if k' = k then Some v else dict_get d k')"
  by (induction d) (auto simp: dict_get_def)

lemma dict_set_fst_image: "fst ` set (dict_set k v d) = insert k (fst ` set d)"
  by (induction d) auto

lemma dict_keys_set: "set (dict_keys (dict_set k v d)) = insert k (set (dict_keys d))"
  by (simp add: dict_keys_def dict_set_fst_image)

lemma dict_has_set: "dict_has k' (dict_set k v d) = (k' = k \<or> dict_has k' d)"
  by (simp add: dict_has_def dict_keys_set)


lemma dict_has_get: "dict_has k d = (dict_get d k \<noteq> None)"
  by (simp add: dict_has_def dict_keys_def dict_get_def map_of_eq_None_iff)

section \<open>Spring configuration resolver: results\<close>

lemma spring_loop_unknown:
  "\<forall>it \<in> set sts. coach_type \<notin> set (item_coach_types it) \<Longrightarrow>
   spring_loop coach_type norm sts counts = Inr counts"
  by (induction sts) simp_all

lemma spring_loop_keys:
  "spring_loop coach_type norm sts init = Inr res \<Longrightarrow> k \<in> set (dict_keys res) \<Longrightarrow>
   k \<in> set (dict_keys init) \<or>
   (\<exists>it \<in> set sts. applicable coach_type norm it \<and> item_spring_name it = k)"
proof (induction sts arbitrary: init)
  case Nil
  then show ?case by simp
next
  case (Cons it sts)
  show ?case
  proof (cases "applicable coach_type norm it")
    case False
    with Cons.prems have "spring_loop coach_type norm sts init = Inr res"
      by (auto simp: applicable_def Let_def split: if_splits)
    from Cons.IH [OF this Cons.prems(2)] show ?thesis by auto
  next
    case True
    with Cons.prems(1) obtain n where
      run: "spring_loop coach_type norm sts (dict_set (item_spring_name it) n init) = Inr res"
      by (auto simp: applicable_def Let_def split: if_splits sum.splits)
    from Cons.IH [OF run Cons.prems(2)] True show ?thesis
      by (auto simp: dict_keys_set)
  qed
qed

text \<open>
  The loop raises only at a null \<^verbatim>\<open>max_per_bogie\<close> of a row it does not skip; on every
  other master table the resolver returns.
\<close>

lemma spring_loop_returns:
  "\<forall>it \<in> set sts. applicable coach_type norm it \<longrightarrow> max_per_bogie it \<noteq> Null \<Longrightarrow>
   \<exists>res. spring_loop coach_type norm sts init = Inr res"
  by (induction sts arbitrary: init)
     (auto simp: applicable_def Let_def item_max_per_bogie_def split: field.splits)

lemma get_spring_counts_returns:
  assumes "\<forall>it \<in> set sts.
             applicable coach_type (normalize_secondary secondary_type) it \<longrightarrow>
             max_per_bogie it \<noteq> Null"
  shows "\<exists>counts. get_spring_counts coach_type secondary_type sts = Inr counts"
proof -
  from spring_loop_returns [OF assms] obtain res where
    "spring_loop coach_type (normalize_secondary secondary_type) sts [] = Inr res" ..
  then show ?thesis by (simp add: get_spring_counts_def)
qed

lemma coil_loop_get:
  "dict_get (coil_loop names counts) k =
     (if k \<in> set names \<and> dict_get counts k = None then Some 2 else dict_get counts k)"
  by (induction names arbitrary: counts) (auto simp: dict_get_set dict_has_get)

lemma coil_loop_keys:
  "set (dict_keys (coil_loop names counts)) = set (dict_keys counts) \<union> set names"
  by (induction names arbitrary: counts) (auto simp: dict_keys_set dict_has_def)

lemma get_spring_counts_Inr:
  "get_spring_counts coach_type secondary_type sts = Inr counts \<Longrightarrow>
   \<exists>master. spring_loop coach_type (normalize_secondary secondary_type) sts [] = Inr master \<and>
     counts = (if contains ''COIL'' (normalize_secondary secondary_type)
               then coil_loop [''Secondary Outer'', ''Secondary Inner''] master else master)"
  by (auto simp: get_spring_counts_def Let_def split: sum.splits if_splits)

text \<open>
  C1, as the claim states it, fails where the master table gives one of the two names a
  quantity of its own: for coach type \<open>LHB\<close>, secondary type \<open>Coil Spring\<close> and a master
  row \<open>Secondary Outer\<close> with 4 per bogie, the result holds \<open>Secondary Outer\<close> at 4, not
  at 2.
\<close>

theorem get_spring_counts_coil_counterexample:
  "contains ''COIL'' (normalize_secondary (Some ''Coil Spring'')) \<and>
   get_spring_counts ''LHB'' (Some ''Coil Spring'')
     [\<lparr>coach_types = Present [''LHB''], spring_type = Present ''Secondary Outer'',
       max_per_bogie = Present 4\<rparr>]
   = Inr [(''Secondary Outer'', 4), (''Secondary Inner'', 2)]"
  by code_simp

text \<open>
  C1 (amended): whenever the normalized secondary type contains \<open>COIL\<close> and the resolver
  returns, the result has an entry for \<open>Secondary Outer\<close> and one for
  \<open>Secondary Inner\<close>. Its quantity is the one the master-data loop left for that name
  (\<open>master\<close> is the dictionary after that loop), which is never overwritten, and 2 where
  the loop left none; it is 2 in particular when no master row listing the coach type
  bears the name, so also on the empty master table.
\<close>

theorem get_spring_counts_coil:
  assumes coil: "contains ''COIL'' (normalize_secondary secondary_type)"
    and ret: "get_spring_counts coach_type secondary_type spring_types = Inr counts"
  shows "\<exists>master.
           spring_loop coach_type (normalize_secondary secondary_type) spring_types [] = Inr master \<and>
           (\<forall>name \<in> {''Secondary Outer'', ''Secondary Inner''}.
              dict_get counts name = Some (case dict_get master name of None \<Rightarrow> 2 | Some q \<Rightarrow> q)) \<and>
           (\<forall>name \<in> {''Secondary Outer'', ''Secondary Inner''}.
              (\<forall>it \<in> set spring_types. coach_type \<in> set (item_coach_types it) \<longrightarrow>
                  item_spring_name it \<noteq> name) \<longrightarrow> dict_get counts name = Some 2)"
proof -
  let ?norm = "normalize_secondary secondary_type"
  from get_spring_counts_Inr [OF ret] coil obtain master where
    m: "spring_loop coach_type ?norm spring_types [] = Inr master" and
    c: "counts = coil_loop [''Secondary Outer'', ''Secondary Inner''] master"
    by auto
  have v: "dict_get counts name = Some (case dict_get master name of None \<Rightarrow> 2 | Some q \<Rightarrow> q)"
    if "name \<in> {''Secondary Outer'', ''Secondary Inner''}" for name
    using that unfolding c coil_loop_get by (cases "dict_get master name") auto
  have a: "dict_get counts name = Some 2"
    if n: "name \<in> {''Secondary Outer'', ''Secondary Inner''}"
      and no: "\<forall>it \<in> set spring_types. coach_type \<in> set (item_coach_types it) \<longrightarrow>
                  item_spring_name it \<noteq> name" for name
  proof -
    have "\<not> dict_has name master"
      using spring_loop_keys [OF m, of name] no
      by (auto simp: dict_has_def dict_keys_def applicable_def)
    then have "dict_get master name = None" by (simp add: dict_has_get)
    with v [OF n] show ?thesis by simp
  qed
  from m v a show ?thesis by blast
qed

theorem get_spring_counts_coil_witness:
  "contains ''COIL'' (normalize_secondary (Some ''Coil Spring'')) \<and>
   get_spring_counts ''LHB'' (Some ''Coil Spring'')
     [\<lparr>coach_types = Present [''LHB''], spring_type = Present ''Secondary Outer'',
       max_per_bogie = Present 4\<rparr>]
   = Inr [(''Secondary Outer'', 4), (''Secondary Inner'', 2)] \<and>
   dict_get [(''Secondary Outer'', 4 :: int), (''Secondary Inner'', 2)] ''Secondary Outer'' = Some 4 \<and>
   dict_get [(''Secondary Outer'', 4 :: int), (''Secondary Inner'', 2)] ''Secondary Inner'' = Some 2"
proof -
  let ?sts = "[\<lparr>coach_types = Present [''LHB''], spring_type = Present ''Secondary Outer'',
                 max_per_bogie = Present 4\<rparr>]"
  let ?counts = "[(''Secondary Outer'', 4 :: int), (''Secondary Inner'', 2)]"
  have h1: "contains ''COIL'' (normalize_secondary (Some ''Coil Spring''))"
    by code_simp
  have h2: "get_spring_counts ''LHB'' (Some ''Coil Spring'') ?sts = Inr ?counts"
    by code_simp
  have m: "spring_loop ''LHB'' (normalize_secondary (Some ''Coil Spring'')) ?sts []
             = Inr [(''Secondary Outer'', 4)]"
    by code_simp
  have inner: "\<forall>it \<in> set ?sts. ''LHB'' \<in> set (item_coach_types it) \<longrightarrow>
                 item_spring_name it \<noteq> ''Secondary Inner''"
    by (simp add: item_spring_name_def)
  from get_spring_counts_coil [OF h1 h2] m inner
  have "dict_get ?counts ''Secondary Outer'' =
          Some (case dict_get [(''Secondary Outer'', 4 :: int)] ''Secondary Outer'' of
                  None \<Rightarrow> 2 | Some q \<Rightarrow> q)"
    and "dict_get ?counts ''Secondary Inner'' = Some 2"
    by auto
  then have "dict_get ?counts ''Secondary Outer'' = Some 4"
    and "dict_get ?counts ''Secondary Inner'' = Some 2"
    by (simp_all add: dict_get_def)
  with h1 h2 show ?thesis by blast
qed

text \<open>
  C2, as the claim states it, fails for a secondary type that contains both \<open>AIR\<close> and
  \<open>COIL\<close>: the second loop inserts the two secondary names whatever the first one
  skipped. No master data is involved.
\<close>

theorem get_spring_counts_air_counterexample:
  "contains ''AIR'' (normalize_secondary (Some ''Air/Coil'')) \<and>
   get_spring_counts ''LHB'' (Some ''Air/Coil'') []
     = Inr [(''Secondary Outer'', 2), (''Secondary Inner'', 2)] \<and>
   contains ''secondary'' (lower ''Secondary Outer'')"
  by code_simp

text \<open>
  C2 (amended): whenever the normalized secondary type contains \<open>AIR\<close> and the resolver
  returns, no name taken from the master table contains \<open>secondary\<close> in lower case: a
  name of the result that does is \<open>Secondary Outer\<close> or \<open>Secondary Inner\<close>, stands at 2,
  and is there because the normalized secondary type contains \<open>COIL\<close> as well. Without
  \<open>COIL\<close> no name of the result contains it.
\<close>

theorem get_spring_counts_air:
  assumes air: "contains ''AIR'' (normalize_secondary secondary_type)"
    and ret: "get_spring_counts coach_type secondary_type spring_types = Inr counts"
  shows "\<forall>name \<in> set (dict_keys counts).
           contains ''secondary'' (lower name) \<longrightarrow>
             contains ''COIL'' (normalize_secondary secondary_type) \<and>
             name \<in> {''Secondary Outer'', ''Secondary Inner''} \<and> dict_get counts name = Some 2"
proof (intro ballI impI)
  fix name
  assume k: "name \<in> set (dict_keys counts)" and s: "contains ''secondary'' (lower name)"
  let ?norm = "normalize_secondary secondary_type"
  from get_spring_counts_Inr [OF ret] obtain master where
    m: "spring_loop coach_type ?norm spring_types [] = Inr master" and
    c: "counts = (if contains ''COIL'' ?norm
                  then coil_loop [''Secondary Outer'', ''Secondary Inner''] master else master)"
    by auto
  have nm: "name \<notin> set (dict_keys master)"
  proof
    assume "name \<in> set (dict_keys master)"
    from spring_loop_keys [OF m this] obtain it where
      "applicable coach_type ?norm it" "item_spring_name it = name"
      by (auto simp: dict_keys_def)
    with air s show False by (simp add: applicable_def)
  qed
  then have none: "dict_get master name = None"
    using dict_has_get [of name master] by (simp add: dict_has_def)
  from nm k c have coil: "contains ''COIL'' ?norm"
    by (auto split: if_splits)
  with c have c': "counts = coil_loop [''Secondary Outer'', ''Secondary Inner''] master" by simp
  from k nm have mem: "name \<in> {''Secondary Outer'', ''Secondary Inner''}"
    unfolding c' coil_loop_keys by auto
  then have "dict_get counts name = Some 2"
    unfolding c' coil_loop_get using none by auto
  with coil mem show "contains ''COIL'' ?norm \<and>
      name \<in> {''Secondary Outer'', ''Secondary Inner''} \<and> dict_get counts name = Some 2"
    by blast
qed

theorem get_spring_counts_air_witness:
  "contains ''AIR'' (normalize_secondary (Some ''Air Spring'')) \<and>
   get_spring_counts ''VB'' (Some ''Air Spring'')
     [\<lparr>coach_types = Present [''VB''], spring_type = Present ''Primary'',
       max_per_bogie = Present 4\<rparr>,
      \<lparr>coach_types = Present [''VB''], spring_type = Present ''Secondary Outer'',
       max_per_bogie = Present 2\<rparr>]
   = Inr [(''Primary'', 4)] \<and>
   \<not> contains ''secondary'' (lower ''Primary'')"
proof -
  let ?sts = "[\<lparr>coach_types = Present [''VB''], spring_type = Present ''Primary'',
                 max_per_bogie = Present 4\<rparr>,
               \<lparr>coach_types = Present [''VB''], spring_type = Present ''Secondary Outer'',
                 max_per_bogie = Present 2\<rparr>]"
  have h1: "contains ''AIR'' (normalize_secondary (Some ''Air Spring''))"
    by code_simp
  have h2: "get_spring_counts ''VB'' (Some ''Air Spring'') ?sts = Inr [(''Primary'', 4)]"
    by code_simp
  have nc: "\<not> contains ''COIL'' (normalize_secondary (Some ''Air Spring''))"
    by code_simp
  from get_spring_counts_air [OF h1 h2] nc
  have "\<not> contains ''secondary'' (lower ''Primary'')"
    by (auto simp: dict_keys_def)
  with h1 h2 show ?thesis by blast
qed

text \<open>
  C7, as the claim states it, fails for a secondary type with \<open>COIL\<close>: the second loop
  does not look at the coach type, so an unknown coach type still gets the two
  secondary entries.
\<close>

theorem get_spring_counts_unknown_coach_type_counterexample:
  "''XX'' \<notin> set (item_coach_types
      \<lparr>coach_types = Present [''VB''], spring_type = Present ''Primary'',
        max_per_bogie = Present 4\<rparr>) \<and>
   get_spring_counts ''XX'' (Some ''Coil'')
     [\<lparr>coach_types = Present [''VB''], spring_type = Present ''Primary'',
       max_per_bogie = Present 4\<rparr>]
   = Inr [(''Secondary Outer'', 2), (''Secondary Inner'', 2)]"
  by code_simp

text \<open>
  C7 (amended): for a coach type that no master row lists, the resolver raises nothing
  and returns the empty configuration when the normalized secondary type does not
  contain \<open>COIL\<close>, and exactly \<open>Secondary Outer\<close> and \<open>Secondary Inner\<close> at 2 each when it
  does.
\<close>

theorem get_spring_counts_unknown_coach_type:
  assumes "\<forall>it \<in> set spring_types. coach_type \<notin> set (item_coach_types it)"
  shows "get_spring_counts coach_type secondary_type spring_types =
           Inr (if contains ''COIL'' (normalize_secondary secondary_type)
                then [(''Secondary Outer'', 2), (''Secondary Inner'', 2)] else [])"
  using spring_loop_unknown [OF assms]
  by (simp add: get_spring_counts_def dict_has_def dict_keys_def)

theorem get_spring_counts_unknown_coach_type_witness:
  "''XX'' \<notin> set (item_coach_types
      \<lparr>coach_types = Present [''VB''], spring_type = Present ''Primary'',
        max_per_bogie = Null\<rparr>) \<and>
   get_spring_counts ''XX'' (Some ''Air Spring'')
     [\<lparr>coach_types = Present [''VB''], spring_type = Present ''Primary'',
       max_per_bogie = Null\<rparr>]
   = Inr []"
proof -
  let ?it = "\<lparr>coach_types = Present [''VB''], spring_type = Present ''Primary'',
               max_per_bogie = Null\<rparr>"
  have h: "\<forall>it \<in> set [?it]. ''XX'' \<notin> set (item_coach_types it)"
    by (simp add: item_coach_types_def)
  have nc: "\<not> contains ''COIL'' (normalize_secondary (Some ''Air Spring''))"
    by code_simp
  from get_spring_counts_unknown_coach_type [OF h, of "Some ''Air Spring''"] nc
  have "get_spring_counts ''XX'' (Some ''Air Spring'') [?it] = Inr []"
    by simp
  with h show ?thesis by simp
qed

section \<open>Inspection checklist builder: results\<close>


















section \<open>Defect aggregator: results\<close>




section \<open>Checklist merge at finalize time: results\<close>

lemma dict_get_distinct: "distinct (dict_keys d) \<Longrightarrow> (k, v) \<in> set d \<longleftrightarrow> dict_get d k = Some v"
  by (auto simp: dict_keys_def dict_get_def)

lemma dict_keys_set_present: "k \<in> set (dict_keys d) \<Longrightarrow> dict_keys (dict_set k v d) = dict_keys d"
  by (induction d) (auto simp: dict_keys_def)

lemma fillna_keys: "dict_keys (fillna r) = dict_keys r"
  by (induction r) (auto simp: fillna_def dict_keys_def)

lemma fillna_get:
  "dict_get (fillna r) k = map_option (\<lambda>v. if v = PNone then PStr '''' else v) (dict_get r k)"
  by (simp add: fillna_def dict_get_def map_of_map)

lemma clean_items_get:
  "dict_get (clean_items its dv r) k =
     (if (k, PStr '''') \<in> set its \<and> k \<notin> set row_fields then Some (PStr dv) else dict_get r k)"
proof (induction its arbitrary: r)
  case Nil
  show ?case by simp
next
  case (Cons kv its)
  obtain k0 v0 where kv: "kv = (k0, v0)" by (cases kv)
  show ?case
    unfolding kv using Cons.IH by (auto simp: dict_get_set row_fields_def)
qed

lemma clean_items_keys:
  "fst ` set its \<subseteq> set (dict_keys r) \<Longrightarrow> dict_keys (clean_items its dv r) = dict_keys r"
proof (induction its arbitrary: r)
  case Nil
  show ?case by simp
next
  case (Cons kv its)
  obtain k0 v0 where kv: "kv = (k0, v0)" by (cases kv)
  from Cons.prems have k0: "k0 \<in> set (dict_keys r)" and rest: "fst ` set its \<subseteq> set (dict_keys r)"
    by (auto simp: kv)
  show ?case
    unfolding kv using Cons.IH [of r] Cons.IH [of "dict_set k0 (PStr dv) r"] k0 rest
    by (simp add: dict_keys_set_present)
qed

lemma clean_row_keys: "dict_keys (clean_row r dv) = dict_keys r"
  unfolding clean_row_def by (rule clean_items_keys) (simp add: dict_keys_def)

lemma clean_row_get:
  assumes "distinct (dict_keys r)"
  shows "dict_get (clean_row r dv) k =
     (if dict_get r k = Some (PStr '''') \<and> k \<notin> set row_fields then Some (PStr dv)
      else dict_get r k)"
  by (simp add: clean_row_def clean_items_get dict_get_distinct [OF assms])

text \<open>One cleaned row against the merge rule of the specification.\<close>

lemma clean_row_fillna_merge:
  assumes d: "distinct (dict_keys r)" and g: "dict_get r k = Some v"
  shows "dict_get (clean_row (fillna r) dv) k = Some (spec_merge_cell dv k v)"
proof -
  have "distinct (dict_keys (fillna r))" using d by (simp add: fillna_keys)
  from clean_row_get [OF this] g show ?thesis
    by (auto simp: fillna_get spec_merge_cell_def)
qed

lemma clean_inspections_None: "clean_inspections None default_val = []"
  by (simp add: clean_inspections_def)

text \<open>
  C6: at finalize time every cell of an edited row is merged by the rule of the
  specification. For a column other than \<open>activity\<close>, \<open>remarks\<close> and \<open>activity_id\<close> a cell
  that is the empty string (or missing, which \<^verbatim>\<open>fillna\<close> makes the empty string) becomes
  the default of the call, and any other value is kept as it is; a cell of those three
  columns is never given the default. The handler calls it with \<open>Satisfactory\<close> for the
  two visual tables and with \<open>Done\<close> for the two must-do tables. Rows and columns stay as
  they are.
\<close>

theorem clean_inspections_merge:
  assumes i: "i < length df" and d: "distinct (dict_keys (df ! i))"
    and g: "dict_get (df ! i) k = Some v"
  shows "dict_get (bogie1_inspections (Some df) ! i) k = Some (spec_merge_cell ''Satisfactory'' k v) \<and>
         dict_get (bogie2_inspections (Some df) ! i) k = Some (spec_merge_cell ''Satisfactory'' k v) \<and>
         dict_get (bogie1_must (Some df) ! i) k = Some (spec_merge_cell ''Done'' k v) \<and>
         dict_get (bogie2_must (Some df) ! i) k = Some (spec_merge_cell ''Done'' k v) \<and>
         dict_get (clean_inspections (Some df) default_val ! i) k
           = Some (if k \<in> {''activity'', ''remarks'', ''activity_id''}
                   then (if v = PNone then PStr '''' else v)
                   else if v = PStr '''' \<or> v = PNone then PStr default_val else v) \<and>
         length (clean_inspections (Some df) default_val) = length df \<and>
         dict_keys (clean_inspections (Some df) default_val ! i) = dict_keys (df ! i)"
proof -
  have c: "dict_get (clean_inspections (Some df) dv ! i) k = Some (spec_merge_cell dv k v)" for dv
    using i by (simp add: clean_inspections_def clean_row_fillna_merge [OF d g])
  have s: "spec_merge_cell default_val k v =
             (if k \<in> {''activity'', ''remarks'', ''activity_id''}
              then (if v = PNone then PStr '''' else v)
              else if v = PStr '''' \<or> v = PNone then PStr default_val else v)"
    by (auto simp: spec_merge_cell_def row_fields_def)
  have l: "length (clean_inspections (Some df) default_val) = length df"
    by (simp add: clean_inspections_def)
  have ks: "dict_keys (clean_inspections (Some df) default_val ! i) = dict_keys (df ! i)"
    using i by (simp add: clean_inspections_def clean_row_keys fillna_keys)
  from c [of "''Satisfactory''"] c [of "''Done''"] c [of default_val] s l ks show ?thesis
    by (simp add: bogie1_inspections_def bogie2_inspections_def bogie1_must_def bogie2_must_def)
qed

theorem clean_inspections_merge_witness:
  "(0::nat) < length [[(''activity_id'', PInt 7), (''activity'', PStr ''Check seat''),
        (''remarks'', PNone), (''primary'', PStr ''''), (''secondaryouter'', PStr ''Unsatisfactory'')]] \<and>
   distinct (dict_keys ([[(''activity_id'', PInt 7), (''activity'', PStr ''Check seat''),
        (''remarks'', PNone), (''primary'', PStr ''''), (''secondaryouter'', PStr ''Unsatisfactory'')]] ! 0)) \<and>
   dict_get ([[(''activity_id'', PInt 7), (''activity'', PStr ''Check seat''),
        (''remarks'', PNone), (''primary'', PStr ''''), (''secondaryouter'', PStr ''Unsatisfactory'')]] ! 0)
      ''primary'' = Some (PStr '''') \<and>
   dict_get (bogie1_inspections (Some [[(''activity_id'', PInt 7), (''activity'', PStr ''Check seat''),
        (''remarks'', PNone), (''primary'', PStr ''''), (''secondaryouter'', PStr ''Unsatisfactory'')]]) ! 0)
      ''primary'' = Some (PStr ''Satisfactory'') \<and>
   bogie1_must (Some [[(''activity_id'', PInt 7), (''activity'', PStr ''Check seat''),
        (''remarks'', PNone), (''primary'', PStr ''''), (''secondaryouter'', PStr ''Unsatisfactory'')]])
     = [[(''activity_id'', PInt 7), (''activity'', PStr ''Check seat''),
        (''remarks'', PStr ''''), (''primary'', PStr ''Done''), (''secondaryouter'', PStr ''Unsatisfactory'')]]"
proof -
  let ?df = "[[(''activity_id'', PInt 7), (''activity'', PStr ''Check seat''),
        (''remarks'', PNone), (''primary'', PStr ''''), (''secondaryouter'', PStr ''Unsatisfactory'')]]"
  have i: "(0::nat) < length ?df" by simp
  have d: "distinct (dict_keys (?df ! 0))" by (simp add: dict_keys_def)
  have g: "dict_get (?df ! 0) ''primary'' = Some (PStr '''')" by (simp add: dict_get_def)
  have m: "spec_merge_cell ''Satisfactory'' ''primary'' (PStr '''') = PStr ''Satisfactory''"
    by (simp add: spec_merge_cell_def row_fields_def)
  have "dict_get (bogie1_inspections (Some ?df) ! 0) ''primary''
          = Some (spec_merge_cell ''Satisfactory'' ''primary'' (PStr ''''))"
    by (rule clean_inspections_merge [OF i d g, THEN conjunct1])
  then have a: "dict_get (bogie1_inspections (Some ?df) ! 0) ''primary'' = Some (PStr ''Satisfactory'')"
    by (simp only: m)
  have b: "bogie1_must (Some ?df) = [[(''activity_id'', PInt 7), (''activity'', PStr ''Check seat''),
        (''remarks'', PStr ''''), (''primary'', PStr ''Done''), (''secondaryouter'', PStr ''Unsatisfactory'')]]"
    by code_simp
  show ?thesis by (intro conjI i d g a b)
qed

section \<open>Signature date normalizer: results\<close>





section \<open>Report document assembler: results\<close>
























end
